theory Spec2Isabelle
  imports Complex_Main "HOL-Library.Multiset"
begin

section \<open>The word-practice page: data\<close>

text \<open>
  The sources hold two versions of the page component \<^verbatim>\<open>HomePage\<close>. The model follows
  the one with the key-press sounds, the shuffled tiles and the "Weiter" popup; the other
  has the same handlers without them, and a "Weiter" button that is disabled unless
  \<^verbatim>\<open>isLocked\<close>.

  A JavaScript string is modelled as a \<^typ>\<open>string\<close>: a list of code units, of which
  \<^typ>\<open>char\<close> covers those below 256 (ASCII and the Latin-1 letters of German words).
  \<^verbatim>\<open>s.length\<close> is \<^const>\<open>length\<close>, \<^verbatim>\<open>===\<close> on strings is equality and
  \<^verbatim>\<open>userInput.join("")\<close> is \<^const>\<open>concat\<close>. Numbers and the other values the
  page can read from its storage are modelled in the next two sections.
\<close>

text \<open>
  \<^verbatim>\<open>type Word = { id; word; audioUrl; letters: string[]; hints?: { tip?: string } }\<close>.
  The field \<open>tip\<close> is \<^verbatim>\<open>hints?.tip\<close>: \<open>None\<close> when \<^verbatim>\<open>hints\<close> or \<^verbatim>\<open>tip\<close> is absent.
\<close>

record Word =
  id_w :: string
  word :: string
  audioUrl :: string
  letters :: "string list"
  tip :: "string option"

datatype Status = Status_idle | Status_success | Status_error

datatype FeedbackTone = Tone_neutral | Tone_success | Tone_error

record Feedback =
  message :: string
  tone :: FeedbackTone

section \<open>Numbers\<close>

text \<open>
  A JavaScript number: a finite number, \<^verbatim>\<open>NaN\<close>, or an infinity (\<open>Infinity\<close> stands for
  either sign). Finite numbers are real numbers here and the arithmetic is exact; doubles
  round, but not on the integers below \<open>2 ^ 53\<close> nor on their halves. An array length
  is an \<^typ>\<open>int\<close>.
\<close>

datatype jsnum = Num real | NaN | Infinity

text \<open>
  \<^verbatim>\<open>a % b\<close> truncates the quotient towards zero, so the result has the sign of \<open>a\<close>;
  it is \<^verbatim>\<open>NaN\<close> when \<open>a\<close> is not finite or \<open>b\<close> is zero. \<^verbatim>\<open>a + b\<close> with a finite \<open>b\<close>.
\<close>

definition js_trunc :: "real \<Rightarrow> int" where
  "js_trunc q = (if 0 \<le> q then \<lfloor>q\<rfloor> else \<lceil>q\<rceil>)"

fun js_rem :: "jsnum \<Rightarrow> int \<Rightarrow> jsnum" where
  "js_rem (Num a) b =
     (if b = 0 then NaN else Num (a - of_int b * of_int (js_trunc (a / of_int b))))"
| "js_rem NaN b = NaN"
| "js_rem Infinity b = NaN"

fun js_add :: "jsnum \<Rightarrow> int \<Rightarrow> jsnum" where
  "js_add (Num a) b = Num (a + of_int b)"
| "js_add NaN b = NaN"
| "js_add Infinity b = Infinity"

definition normalizeIndex :: "jsnum \<Rightarrow> int \<Rightarrow> jsnum" where
  "normalizeIndex index total' =
     (if total' = 0 then Num 0 else js_rem (js_add (js_rem index total') total') total')"

section \<open>The mistakes object\<close>

text \<open>
  A value found under a key of the mistakes object, by kind: a number, a string, a
  boolean, \<^verbatim>\<open>null\<close>, or an object (an array, an object, a function). The contents of
  strings and objects are not followed: \<^verbatim>\<open>+ 1\<close> turns either into a string.
\<close>

datatype jsvalue = Js_number jsnum | Js_string | Js_boolean bool | Js_null | Js_object

text \<open>
  The value of the state variable \<^verbatim>\<open>mistakes\<close>. The page itself only builds plain
  objects: \<open>Plain m\<close> has the own properties \<open>m\<close> and inherits from
  \<^verbatim>\<open>Object.prototype\<close>. The load effect can put any value of the storage there
  unchecked; a value that is not a plain object (a string, a number, a boolean, an array)
  is \<open>Exotic own get\<close>, given by what the page can observe of it: its own enumerable
  properties, which \<^verbatim>\<open>{...prev}\<close> copies, and the result of \<^verbatim>\<open>prev[key]\<close>
  (\<open>None\<close> is \<^verbatim>\<open>undefined\<close>).
\<close>

datatype mistakes_value =
    Plain "string \<rightharpoonup> jsvalue"
  | Exotic "string \<rightharpoonup> jsvalue" "string \<Rightarrow> jsvalue option"

text \<open>The property names every plain object inherits from \<^verbatim>\<open>Object.prototype\<close>.\<close>

definition object_prototype_names :: "string list" where
  "object_prototype_names =
     [''constructor'', ''__defineGetter__'', ''__defineSetter__'', ''hasOwnProperty'',
      ''__lookupGetter__'', ''__lookupSetter__'', ''isPrototypeOf'', ''propertyIsEnumerable'',
      ''toString'', ''valueOf'', ''__proto__'', ''toLocaleString'']"

fun own_properties :: "mistakes_value \<Rightarrow> (string \<rightharpoonup> jsvalue)" where
  "own_properties (Plain m) = m"
| "own_properties (Exotic own get) = own"

text \<open>\<^verbatim>\<open>prev[key]\<close>: an own property, or else an inherited one (a function or an object).\<close>

fun get_property :: "mistakes_value \<Rightarrow> string \<Rightarrow> jsvalue option" where
  "get_property (Plain m) k =
     (case m k of
        Some v \<Rightarrow> Some v
      | None \<Rightarrow> if k \<in> set object_prototype_names then Some Js_object else None)"
| "get_property (Exotic own get) k = get k"

text \<open>
  \<^verbatim>\<open>(x ?? 0) + 1\<close>: \<^verbatim>\<open>undefined\<close> and \<^verbatim>\<open>null\<close> count as 0, a boolean as 0 or 1, and a
  string or an object makes the sum a string concatenation.
\<close>

fun plus_one :: "jsvalue option \<Rightarrow> jsvalue" where
  "plus_one None = Js_number (Num 1)"
| "plus_one (Some Js_null) = Js_number (Num 1)"
| "plus_one (Some (Js_number x)) = Js_number (js_add x 1)"
| "plus_one (Some (Js_boolean b)) = Js_number (Num (if b then 2 else 1))"
| "plus_one (Some Js_string) = Js_string"
| "plus_one (Some Js_object) = Js_string"

text \<open>\<^verbatim>\<open>(prev) => ({ ...prev, [key]: (prev[key] ?? 0) + 1 })\<close>.\<close>

definition bump :: "string \<Rightarrow> mistakes_value \<Rightarrow> mistakes_value" where
  "bump k prev = Plain ((own_properties prev)(k \<mapsto> plus_one (get_property prev k)))"

section \<open>The state of the page\<close>

text \<open>
  The state variables of the component (its \<^verbatim>\<open>useState\<close> cells). \<^verbatim>\<open>words\<close> never
  changes and is a parameter of the functions below.
\<close>

record state =
  currentIndex :: jsnum
  userInput :: "string list"
  isLocked :: bool
  status :: Status
  feedback :: Feedback
  mistakes :: mistakes_value
  progressLoaded :: bool
  isAudioBusy :: bool
  audioAvailable :: bool
  shake :: bool
  showNextPopup :: bool
  shuffledLetters :: "string list"

text \<open>
  \<^verbatim>\<open>const currentWord = words[currentIndex]\<close>: an element when the index is an integer
  within the list, \<^verbatim>\<open>undefined\<close> otherwise.
\<close>

definition currentWord :: "Word list \<Rightarrow> state \<Rightarrow> Word option" where
  "currentWord words s =
     (case currentIndex s of
        Num x \<Rightarrow>
          if of_int \<lfloor>x\<rfloor> = x \<and> 0 \<le> x \<and> x < real (length words)
          then Some (words ! nat \<lfloor>x\<rfloor>) else None
      | _ \<Rightarrow> None)"

definition neutral_feedback :: Feedback where
  "neutral_feedback = \<lparr>message = [], tone = Tone_neutral\<rparr>"

text \<open>The first render: every \<^verbatim>\<open>useState\<close> initialiser.\<close>

definition initial :: "Word list \<Rightarrow> state" where
  "initial words =
     \<lparr>currentIndex = Num 0, userInput = [], isLocked = False, status = Status_idle,
      feedback = neutral_feedback, mistakes = Plain Map.empty, progressLoaded = False,
      isAudioBusy = False, audioAvailable = True, shake = False, showNextPopup = False,
      shuffledLetters = (case words of [] \<Rightarrow> [] | w # _ \<Rightarrow> letters w)\<rparr>"

section \<open>Event handlers\<close>

text \<open>
  A handler is a closure of one render. It reads the state variables of that render
  (the snapshot \<open>v\<close>) and calls setters, which act on the state \<open>s\<close> the component
  has when the event is handled: \<^verbatim>\<open>setX(value)\<close> overwrites, \<^verbatim>\<open>setX(prev => ...)\<close>
  computes from the value in \<open>s\<close>. A button's \<^verbatim>\<open>onClick\<close> is the handler of the render
  on screen, so there \<open>v = s\<close>. The word \<open>w\<close> is the \<^verbatim>\<open>currentWord\<close> of the render.
  \<^verbatim>\<open>playSound\<close> only drives an audio element and touches no state variable; it is left
  out.
\<close>

definition triggerShake :: "state \<Rightarrow> state" where
  "triggerShake s = s\<lparr>shake := True\<rparr>"

definition handleLetterClick :: "Word \<Rightarrow> string \<Rightarrow> state \<Rightarrow> state \<Rightarrow> state" where
  "handleLetterClick w letter v s =
     (if isLocked v then s
      else if length (userInput v) \<ge> length (word w) then triggerShake s
      else s\<lparr>userInput := userInput s @ [letter]\<rparr>)"

definition handleBackspace :: "state \<Rightarrow> state \<Rightarrow> state" where
  "handleBackspace v s =
     (if isLocked v \<or> length (userInput v) = 0 then s
      else s\<lparr>userInput := butlast (userInput s)\<rparr>)"

definition handleClear :: "state \<Rightarrow> state \<Rightarrow> state" where
  "handleClear v s =
     (if isLocked v \<or> length (userInput v) = 0 then s
      else s\<lparr>userInput := [], feedback := neutral_feedback, status := Status_idle\<rparr>)"

text \<open>Decimal digits of a natural number, as \<^verbatim>\<open>`${remaining}`\<close> prints it.\<close>

fun decimal :: "nat \<Rightarrow> string" where
  "decimal n =
     (if n < 10 then [''0123456789'' ! n]
      else decimal (n div 10) @ [''0123456789'' ! (n mod 10)])"

definition error_feedback :: "string \<Rightarrow> state \<Rightarrow> state" where
  "error_feedback m s =
     triggerShake (s\<lparr>feedback := \<lparr>message = m, tone = Tone_error\<rparr>, status := Status_error\<rparr>)"

definition missing_message :: "nat \<Rightarrow> string" where
  "missing_message remaining =
     ''Dir fehlen noch '' @ decimal remaining @ '' Buchstabe''
       @ (if remaining = 1 then [] else ''n'') @ ''.''"

definition too_many_message :: string where
  "too_many_message = ''Du hast zu viele Buchstaben gew'' @ [CHR 0xE4] @ ''hlt.''"

definition hint_message :: "Word \<Rightarrow> string" where
  "hint_message w =
     ''Noch nicht ganz richtig. '' @
       (case tip w of
          None \<Rightarrow> ''Versuch es noch einmal.''
        | Some t \<Rightarrow> if t = [] then ''Versuch es noch einmal.'' else ''Tipp: '' @ t)"

definition handleCheck :: "Word \<Rightarrow> state \<Rightarrow> state \<Rightarrow> state" where
  "handleCheck w v s =
     (if isLocked v then s
      else let attempt = concat (userInput v) in
        if length attempt = 0 then error_feedback ''Fang mit einem Buchstaben an!'' s
        else if length attempt \<noteq> length (word w) then
          (if length (word w) > length attempt
           then error_feedback (missing_message (length (word w) - length attempt)) s
           else error_feedback too_many_message s)
        else if attempt = word w then
          s\<lparr>isLocked := True, status := Status_success,
            feedback := \<lparr>message = ''Richtig!'', tone = Tone_success\<rparr>,
            showNextPopup := True\<rparr>
        else (error_feedback (hint_message w) s)\<lparr>mistakes := bump (id_w w) (mistakes s)\<rparr>)"

text \<open>\<^verbatim>\<open>handleNext\<close> reads no state variable; both its setters act on the current state.\<close>

definition handleNext :: "Word list \<Rightarrow> state \<Rightarrow> state" where
  "handleNext words s =
     (if length words = 0 then s
      else s\<lparr>showNextPopup := False,
             currentIndex := normalizeIndex (js_add (currentIndex s) 1) (int (length words))\<rparr>)"

definition handleAnimationEnd :: "state \<Rightarrow> state \<Rightarrow> state" where
  "handleAnimationEnd v s = (if shake v then s\<lparr>shake := False\<rparr> else s)"

text \<open>
  \<^verbatim>\<open>String.prototype.toLowerCase\<close> on the code units below 256: the capital letters
  \<open>A\<close> to \<open>Z\<close> and the Latin-1 capitals (192 to 222 without the multiplication sign 215)
  map to the unit 32 above; every other unit is kept.
\<close>

definition lower_unit :: "char \<Rightarrow> char" where
  "lower_unit c =
     (let n = (of_char c :: nat)
      in if (65 \<le> n \<and> n \<le> 90) \<or> (192 \<le> n \<and> n \<le> 222 \<and> n \<noteq> 215)
         then char_of (n + 32) else c)"

definition toLowerCase :: "string \<Rightarrow> string" where
  "toLowerCase str = map lower_unit str"

text \<open>
  \<^verbatim>\<open>new Set((currentWord?.letters ?? []).map((letter) => letter.toLowerCase()))\<close>.
\<close>

definition allowedLetters :: "Word option \<Rightarrow> string set" where
  "allowedLetters cw =
     set (map toLowerCase (case cw of None \<Rightarrow> [] | Some w \<Rightarrow> letters w))"

text \<open>
  The key listener. It is registered by an effect whose dependencies are
  \<^verbatim>\<open>[allowedLetters, currentWord]\<close>, so it is replaced only when the word changes: the
  handlers it calls, and the \<^verbatim>\<open>currentWord\<close> and \<^verbatim>\<open>allowedLetters\<close> it reads, are those
  of the render \<open>v\<close> in which it was registered.
\<close>

definition handleKeydown :: "Word list \<Rightarrow> string \<Rightarrow> state \<Rightarrow> state \<Rightarrow> state" where
  "handleKeydown words key v s =
     (case currentWord words v of
        None \<Rightarrow> s
      | Some w \<Rightarrow>
          if key = ''Backspace'' then handleBackspace v s
          else if key = ''Enter'' then handleCheck w v s
          else if key = ''Escape'' then handleClear v s
          else let k = toLowerCase key in
            if length k = 1 \<and> k \<in> allowedLetters (Some w)
            then handleLetterClick w k v s else s)"

section \<open>Shuffling the tiles\<close>

text \<open>
  \<^verbatim>\<open>shuffleArray\<close>: the loop runs \<open>i\<close> from \<^verbatim>\<open>array.length - 1\<close> down to 1 and swaps
  positions \<open>i\<close> and \<open>j = Math.floor(Math.random() * (i + 1))\<close>. The outcomes of
  \<^verbatim>\<open>Math.random()\<close> are a parameter: \<open>rnd k\<close> is what the \<open>k\<close>-th call of one shuffle
  returns, a number that is at least 0 and below 1.
\<close>

definition valid_rnd :: "(nat \<Rightarrow> real) \<Rightarrow> bool" where
  "valid_rnd rnd = (\<forall>k. 0 \<le> rnd k \<and> rnd k < 1)"

fun shuffle_loop :: "(nat \<Rightarrow> real) \<Rightarrow> nat \<Rightarrow> nat \<Rightarrow> 'a list \<Rightarrow> 'a list" where
  "shuffle_loop rnd k 0 array = array"
| "shuffle_loop rnd k (Suc i') array =
     (let i = Suc i';
          j = nat \<lfloor>rnd k * (real i + 1)\<rfloor>
      in shuffle_loop rnd (Suc k) i' (array[i := array ! j, j := array ! i]))"

definition shuffleArray :: "(nat \<Rightarrow> real) \<Rightarrow> 'a list \<Rightarrow> 'a list" where
  "shuffleArray rnd input = shuffle_loop rnd 0 (length input - 1) input"

section \<open>Persistence\<close>

text \<open>
  The storage cell as the load effect reads it. \<open>Unavailable\<close>: \<^verbatim>\<open>getItem\<close> throws.
  \<open>Missing\<close>: it returns \<^verbatim>\<open>null\<close>. \<open>Empty_text\<close>: the empty string. \<open>Unparsable\<close>:
  a text \<^verbatim>\<open>JSON.parse\<close> rejects. \<open>Json_null\<close>: the text \<^verbatim>\<open>null\<close>, whose properties cannot
  be read. Every other parsable text is a \<open>Json_value\<close>, given by the two properties the
  effect reads, whatever their shape (the cast checks nothing):
  \<^item> \<^verbatim>\<open>parsed.index\<close>: \<open>None\<close> when absent or \<^verbatim>\<open>null\<close> (also when \<^verbatim>\<open>parsed\<close> is not an
    object), else the number that \<^verbatim>\<open>%\<close> converts the property to: 1.5 is \<open>Num 1.5\<close>, the
    string "2" is \<open>Num 2\<close>, the string "abc" is \<open>NaN\<close>, 1e400 is \<open>Infinity\<close>;
  \<^item> \<^verbatim>\<open>parsed.mistakes\<close>: \<open>None\<close> when absent or \<^verbatim>\<open>null\<close>, else the value.
  The save effect only writes the cell; it is not part of the model.
\<close>

datatype stored =
    Unavailable
  | Missing
  | Empty_text
  | Unparsable
  | Json_null
  | Json_value "jsnum option" "mistakes_value option"

text \<open>
  The load effect: it returns before the \<^verbatim>\<open>try\<close> on an empty dataset; every exception
  is caught, and \<^verbatim>\<open>finally\<close> sets \<^verbatim>\<open>progressLoaded\<close>.
\<close>

definition load_progress :: "Word list \<Rightarrow> stored \<Rightarrow> state \<Rightarrow> state" where
  "load_progress words stor s =
     (if length words = 0 then s
      else case stor of
        Json_value index ms \<Rightarrow>
          s\<lparr>currentIndex :=
               normalizeIndex (case index of None \<Rightarrow> Num 0 | Some x \<Rightarrow> x) (int (length words)),
            mistakes := (case ms of None \<Rightarrow> Plain Map.empty | Some m \<Rightarrow> m),
            progressLoaded := True\<rparr>
      | _ \<Rightarrow> s\<lparr>progressLoaded := True\<rparr>)"

section \<open>Effects of a word change, and the session as a transition system\<close>

text \<open>
  The effect with dependency \<^verbatim>\<open>[currentWord]\<close> that resets the per-word state, and the
  one that shuffles the tiles. Both run after the first render and after every render
  whose \<^verbatim>\<open>currentWord\<close> differs from the one before; the shuffle's setter comes last.
\<close>

definition reset_effect :: "Word option \<Rightarrow> state \<Rightarrow> state" where
  "reset_effect cw s =
     (case cw of
        None \<Rightarrow> s
      | Some w \<Rightarrow>
          s\<lparr>userInput := [], isLocked := False, status := Status_idle,
            feedback := neutral_feedback, shake := False, audioAvailable := True,
            isAudioBusy := False, showNextPopup := False, shuffledLetters := letters w\<rparr>)"

definition shuffle_effect :: "(nat \<Rightarrow> real) \<Rightarrow> Word option \<Rightarrow> state \<Rightarrow> state" where
  "shuffle_effect rnd cw s =
     (case cw of
        None \<Rightarrow> s\<lparr>shuffledLetters := []\<rparr>
      | Some w \<Rightarrow> s\<lparr>shuffledLetters := shuffleArray rnd (letters w)\<rparr>)"

text \<open>
  A configuration: the state of the component (\<open>st\<close>, which is also the render on
  screen between two events) and the render in which the key listener was registered
  (\<open>kb\<close>).
\<close>

record conf =
  st :: state
  kb :: state

text \<open>
  The effects after a render \<open>s\<close> with a new \<^verbatim>\<open>currentWord\<close>: reset, shuffle, and the key
  listener is registered anew, closing over \<open>s\<close>.
\<close>

definition word_effects :: "Word list \<Rightarrow> (nat \<Rightarrow> real) \<Rightarrow> state \<Rightarrow> conf" where
  "word_effects words rnd s =
     \<lparr>st = shuffle_effect rnd (currentWord words s) (reset_effect (currentWord words s) s),
      kb = s\<rparr>"

text \<open>
  Mounting: the effects of the first render (all closing over the initial state), among
  them the load effect; if it moved \<^verbatim>\<open>currentIndex\<close>, the effects of the second render.
\<close>

definition mount :: "Word list \<Rightarrow> stored \<Rightarrow> (nat \<Rightarrow> real) \<Rightarrow> (nat \<Rightarrow> real) \<Rightarrow> conf" where
  "mount words stor rnd0 rnd1 =
     (let s0 = initial words;
          s1 = load_progress words stor (st (word_effects words rnd0 s0))
      in if currentIndex s1 \<noteq> currentIndex s0 then word_effects words rnd1 s1
         else \<lparr>st = s1, kb = s0\<rparr>)"

text \<open>
  Events. A click reaches its handler only when the button is rendered and enabled: the
  tiles and the three control buttons exist only when there is a current word and are
  disabled as their \<^verbatim>\<open>disabled\<close> attributes say; the "Weiter" button exists only while
  \<^verbatim>\<open>showNextPopup\<close>. \<open>ClickLetter k\<close> is a click on the \<open>k\<close>-th tile; \<open>ClickNext rnd\<close>
  carries the outcomes of \<^verbatim>\<open>Math.random\<close> for the shuffle that follows. The playback
  events of the audio element (they set \<^verbatim>\<open>isAudioBusy\<close>, \<^verbatim>\<open>audioAvailable\<close> and
  \<^verbatim>\<open>feedback\<close> only) are not part of the model.
\<close>

datatype event =
    ClickLetter nat
  | ClickBackspace
  | ClickCheck
  | ClickClear
  | ClickNext "nat \<Rightarrow> real"
  | Keydown string
  | AnimationEnd

text \<open>
  \<open>click\<close> is an event of the rendered view, handled by the handlers of the render on
  screen; \<open>step\<close> adds the key presses, which go to the key listener whether or not a
  view is rendered.
\<close>

definition click :: "Word list \<Rightarrow> Word \<Rightarrow> conf \<Rightarrow> event \<Rightarrow> conf" where
  "click words w c e =
     (let s = st c in
      case e of
        ClickLetter k \<Rightarrow>
          if isLocked s \<or> k \<ge> length (shuffledLetters s) then c
          else c\<lparr>st := handleLetterClick w (shuffledLetters s ! k) s s\<rparr>
      | ClickBackspace \<Rightarrow>
          if isLocked s \<or> length (userInput s) = 0 then c
          else c\<lparr>st := handleBackspace s s\<rparr>
      | ClickCheck \<Rightarrow> if isLocked s then c else c\<lparr>st := handleCheck w s s\<rparr>
      | ClickClear \<Rightarrow>
          if isLocked s \<or> length (userInput s) = 0 then c
          else c\<lparr>st := handleClear s s\<rparr>
      | ClickNext rnd \<Rightarrow>
          if \<not> showNextPopup s then c
          else let s' = handleNext words s in
            if currentIndex s' \<noteq> currentIndex s then word_effects words rnd s'
            else c\<lparr>st := s'\<rparr>
      | Keydown key \<Rightarrow> c
      | AnimationEnd \<Rightarrow> c\<lparr>st := handleAnimationEnd s s\<rparr>)"

definition step :: "Word list \<Rightarrow> conf \<Rightarrow> event \<Rightarrow> conf" where
  "step words c e =
     (case e of
        Keydown key \<Rightarrow> c\<lparr>st := handleKeydown words key (kb c) (st c)\<rparr>
      | _ \<Rightarrow> (case currentWord words (st c) of None \<Rightarrow> c | Some w \<Rightarrow> click words w c e))"

definition run :: "Word list \<Rightarrow> conf \<Rightarrow> event list \<Rightarrow> conf" where
  "run words c evs = foldl (step words) c evs"

definition valid_event :: "event \<Rightarrow> bool" where
  "valid_event e = (case e of ClickNext rnd \<Rightarrow> valid_rnd rnd | _ \<Rightarrow> True)"

section \<open>The invariant of a session\<close>

text \<open>
  What holds of every configuration reached from mounting: the popup is shown only while
  locked; the key listener was registered for the word that is current; every letter of the attempt is a tile of the current word
  or the lowercase form of one, and the tiles on screen are the word's letters.
\<close>

definition popup_locked :: "state \<Rightarrow> bool" where
  "popup_locked s = (showNextPopup s \<longrightarrow> isLocked s)"

definition session_inv :: "Word list \<Rightarrow> conf \<Rightarrow> bool" where
  "session_inv words c =
     (popup_locked (st c) \<and>
      currentIndex (kb c) = currentIndex (st c) \<and>
      (case currentWord words (st c) of
         None \<Rightarrow> userInput (st c) = []
       | Some w \<Rightarrow>
           set (userInput (st c)) \<subseteq> set (letters w) \<union> allowedLetters (Some w) \<and>
           set (shuffledLetters (st c)) = set (letters w)))"

section \<open>Example data\<close>

definition hund :: Word where
  "hund = \<lparr>id_w = ''w1'', word = ''hund'', audioUrl = ''/audio/hund.mp3'',
           letters = [''h'', ''u'', ''n'', ''d''], tip = None\<rparr>"

definition katze :: Word where
  "katze = \<lparr>id_w = ''w2'', word = ''katze'', audioUrl = ''/audio/katze.mp3'',
            letters = [''k'', ''a'', ''t'', ''z'', ''e''], tip = Some ''tz wie in Tatze''\<rparr>"

definition igel :: Word where
  "igel = \<lparr>id_w = ''w3'', word = ''Igel'', audioUrl = ''/audio/igel.mp3'',
           letters = [''I'', ''g'', ''e'', ''l''], tip = None\<rparr>"


definition konstruktor :: Word where
  "konstruktor = \<lparr>id_w = ''constructor'', word = ''ab'', audioUrl = ''/audio/ab.mp3'',
                  letters = [''a'', ''b''], tip = None\<rparr>"

section \<open>Index arithmetic: proofs\<close>

lemma js_rem_int_nonneg:
  assumes "0 \<le> a" "0 < b"
  shows "js_rem (Num (of_int a)) b = Num (of_int (a mod b))"
proof -
  have q: "0 \<le> real_of_int a / real_of_int b" using assms by simp
  have "js_trunc (real_of_int a / real_of_int b) = a div b"
    using q by (simp add: js_trunc_def floor_divide_of_int_eq)
  then have "js_rem (Num (of_int a)) b = Num (of_int (a - b * (a div b)))"
    using assms(2) by simp
  also have "a - b * (a div b) = a mod b" by (simp add: minus_mult_div_eq_mod)
  finally show ?thesis .
qed

lemma js_rem_int_neg:
  assumes "a < 0" "0 < b"
  shows "js_rem (Num (of_int a)) b = Num (of_int (- ((- a) mod b)))"
proof -
  have q: "real_of_int a / real_of_int b < 0" using assms by (simp add: divide_neg_pos)
  have "\<lceil>real_of_int a / real_of_int b\<rceil> = - \<lfloor>real_of_int (- a) / real_of_int b\<rfloor>"
    by (simp add: ceiling_def)
  also have "\<dots> = - ((- a) div b)" by (simp only: floor_divide_of_int_eq)
  finally have "js_trunc (real_of_int a / real_of_int b) = - ((- a) div b)"
    using q by (simp add: js_trunc_def)
  then have "js_rem (Num (of_int a)) b = Num (of_int (a - b * (- ((- a) div b))))"
    using assms(2) by simp
  also have "a - b * (- ((- a) div b)) = - ((- a) - b * ((- a) div b))" by (simp add: algebra_simps)
  also have "\<dots> = - ((- a) mod b)" by (simp add: minus_mult_div_eq_mod)
  finally show ?thesis .
qed

lemma js_add_int: "js_add (Num (of_int a)) b = Num (of_int (a + b))"
  by simp

lemma normalizeIndex_mod:
  assumes n: "0 < n"
  shows "normalizeIndex (Num (of_int i)) n = Num (of_int (i mod n))"
proof (cases "0 \<le> i")
  case True
  then have "js_rem (Num (of_int i)) n = Num (of_int (i mod n))" using n by (rule js_rem_int_nonneg)
  moreover have "0 \<le> i mod n + n" using n by (simp add: add_nonneg_nonneg)
  then have "js_rem (Num (of_int (i mod n + n))) n = Num (of_int ((i mod n + n) mod n))"
    using n by (rule js_rem_int_nonneg)
  ultimately show ?thesis using n by (simp add: normalizeIndex_def del: js_rem.simps)
next
  case False
  then have neg: "i < 0" by simp
  have r: "js_rem (Num (of_int i)) n = Num (of_int (- ((- i) mod n)))" using neg n by (rule js_rem_int_neg)
  have "(- i) mod n < n" using n by simp
  then have "0 \<le> - ((- i) mod n) + n" by simp
  then have "js_rem (Num (of_int (- ((- i) mod n) + n))) n = Num (of_int ((- ((- i) mod n) + n) mod n))"
    using n by (rule js_rem_int_nonneg)
  also have "(- ((- i) mod n) + n) mod n = (- ((- i) mod n)) mod n" by simp
  also have "\<dots> = i mod n" by (metis mod_minus_eq minus_minus)
  finally show ?thesis using n r by (simp add: normalizeIndex_def del: js_rem.simps)
qed


text \<open>
  C3. With a dataset of \<open>n > 0\<close> words, \<^verbatim>\<open>handleNext\<close> moves \<^verbatim>\<open>currentIndex\<close> from any
  integer \<open>i\<close> to \<open>(i + 1) mod n\<close> (the non-negative remainder, which the double
  \<^verbatim>\<open>%\<close> of \<^verbatim>\<open>normalizeIndex\<close> computes for every integer), and from \<open>n - 1\<close> to \<open>0\<close>.
\<close>

theorem handleNext_advances:
  "words \<noteq> [] \<Longrightarrow>
     normalizeIndex (Num (of_int (i + 1))) (int (length words)) =
       Num (of_int ((i + 1) mod int (length words))) \<and>
     (currentIndex s = Num (of_int i) \<longrightarrow>
        currentIndex (handleNext words s) = Num (of_int ((i + 1) mod int (length words)))) \<and>
     (currentIndex s = Num (of_int (int (length words) - 1)) \<longrightarrow>
        currentIndex (handleNext words s) = Num 0)"
proof -
  assume "words \<noteq> []"
  then have n: "0 < int (length words)" by simp
  have adv: "currentIndex (handleNext words s) = Num (of_int ((j + 1) mod int (length words)))"
    if "currentIndex s = Num (of_int j)" for j
  proof -
    have "js_add (currentIndex s) 1 = Num (of_int (j + 1))" using that by simp
    then show ?thesis
      using n normalizeIndex_mod [OF n, of "j + 1"] by (simp add: handleNext_def)
  qed
  have "currentIndex (handleNext words s) = Num 0"
    if "currentIndex s = Num (of_int (int (length words) - 1))"
    using adv [OF that] by simp
  with adv normalizeIndex_mod [OF n, of "i + 1"] show ?thesis by blast
qed

theorem handleNext_advances_witness:
  "[hund, katze, igel] \<noteq> [] \<and>
   normalizeIndex (Num (of_int (- 5 + 1))) (int (length [hund, katze, igel])) = Num 2 \<and>
   currentIndex (handleNext [hund, katze, igel] ((initial [hund, katze, igel])\<lparr>currentIndex := Num 2\<rparr>)) = Num 0"
  using handleNext_advances [of "[hund, katze, igel]" "- 5"
      "(initial [hund, katze, igel])\<lparr>currentIndex := Num 2\<rparr>"]
  by simp

section \<open>Clicks on the buttons\<close>

text \<open>
  A button's handler belongs to the render on screen: the snapshot it reads and the state
  it updates are the same.
\<close>

lemma handleCheck_unfold:
  "handleCheck w v s =
     (if isLocked v then s
      else if concat (userInput v) = [] then error_feedback ''Fang mit einem Buchstaben an!'' s
      else if length (concat (userInput v)) \<noteq> length (word w) then
          (if length (word w) > length (concat (userInput v))
           then error_feedback (missing_message (length (word w) - length (concat (userInput v)))) s
           else error_feedback too_many_message s)
      else if concat (userInput v) = word w then
          s\<lparr>isLocked := True, status := Status_success,
            feedback := \<lparr>message = ''Richtig!'', tone = Tone_success\<rparr>,
            showNextPopup := True\<rparr>
      else (error_feedback (hint_message w) s)\<lparr>mistakes := bump (id_w w) (mistakes s)\<rparr>)"
  unfolding handleCheck_def Let_def length_0_conv ..

lemmas check_simps = handleCheck_unfold error_feedback_def triggerShake_def





text \<open>
  What the other buttons' handlers do, for comparison with the key listener below: a
  wrong attempt of the right length gets the retry message and one more mistake under the
  word's id; an attempt of another length gets the exact count or the too-many message;
  a tile click on a full attempt only sets \<^verbatim>\<open>shake\<close>.
\<close>

lemma bump_Plain_absent:
  "m k = None \<Longrightarrow> k \<notin> set object_prototype_names \<Longrightarrow>
     bump k (Plain m) = Plain (m(k \<mapsto> Js_number (Num 1)))"
  by (simp add: bump_def)

lemma bump_Plain_count:
  "m k = Some (Js_number (Num (of_int c))) \<Longrightarrow>
     bump k (Plain m) = Plain (m(k \<mapsto> Js_number (Num (of_int (c + 1)))))"
  by (simp add: bump_def)

lemma bump_Plain_inherited:
  "m k = None \<Longrightarrow> k \<in> set object_prototype_names \<Longrightarrow>
     bump k (Plain m) = Plain (m(k \<mapsto> Js_string))"
  by (simp add: bump_def)

lemma check_button_wrong:
  assumes "\<not> isLocked s"
    and "length (concat (userInput s)) = length (word w)"
    and "concat (userInput s) \<noteq> word w"
  shows "handleCheck w s s =
       s\<lparr>feedback :=
           \<lparr>message = ''Noch nicht ganz richtig. '' @
              (case tip w of
                 None \<Rightarrow> ''Versuch es noch einmal.''
               | Some t \<Rightarrow> if t = [] then ''Versuch es noch einmal.'' else ''Tipp: '' @ t),
            tone = Tone_error\<rparr>,
         status := Status_error, shake := True,
         mistakes := bump (id_w w) (mistakes s)\<rparr>"
proof -
  have "concat (userInput s) \<noteq> []" using assms(2,3) by (metis length_0_conv)
  then show ?thesis using assms
    by (simp add: check_simps hint_message_def del: concat_eq_Nil_conv)
qed

lemma check_button_length_mismatch:
  assumes "\<not> isLocked s"
    and "concat (userInput s) \<noteq> []"
    and "length (concat (userInput s)) \<noteq> length (word w)"
  shows "handleCheck w s s =
       s\<lparr>feedback :=
           \<lparr>message =
              (if length (concat (userInput s)) < length (word w)
               then missing_message (length (word w) - length (concat (userInput s)))
               else too_many_message),
            tone = Tone_error\<rparr>,
         status := Status_error, shake := True\<rparr>"
  using assms by (simp add: check_simps del: concat_eq_Nil_conv)

lemma tile_click_bounded:
  "(isLocked s \<longrightarrow> handleLetterClick w l s s = s) \<and>
   (\<not> isLocked s \<and> length (word w) \<le> length (userInput s) \<longrightarrow>
      handleLetterClick w l s s = s\<lparr>shake := True\<rparr>) \<and>
   (length (userInput s) \<le> length (word w) \<longrightarrow>
      length (userInput (handleLetterClick w l s s)) \<le> length (word w))"
  by (simp add: handleLetterClick_def triggerShake_def)

section \<open>The key listener\<close>

lemma length_toLowerCase: "length (toLowerCase k) = length k"
  by (simp add: toLowerCase_def)

lemma letter_click_cases:
  "handleLetterClick w l v s = s \<or> handleLetterClick w l v s = s\<lparr>shake := True\<rparr> \<or>
   handleLetterClick w l v s = s\<lparr>userInput := userInput s @ [l]\<rparr>"
  by (simp add: handleLetterClick_def triggerShake_def)

lemma butlast_not_snoc: "butlast xs \<noteq> xs @ [x]"
proof
  assume "butlast xs = xs @ [x]"
  then have "length (butlast xs) = length (xs @ [x])" by simp
  then show False by simp
qed

lemma backspace_not_snoc: "userInput (handleBackspace v s) \<noteq> userInput s @ [x]"
  by (simp add: handleBackspace_def butlast_not_snoc)

lemma clear_not_snoc: "userInput (handleClear v s) \<noteq> userInput s @ [x]"
  by (simp add: handleClear_def)

lemma userInput_handleCheck: "userInput (handleCheck w v s) = userInput s"
  by (simp add: check_simps)

text \<open>
  C10. The key listener compares the lowercased key with the lowercased letters of its
  word: whenever a key press appends a letter \<open>x\<close> to the attempt, \<open>x\<close> is the lowercase
  form of the key and is in \<^verbatim>\<open>allowedLetters\<close>; and a one-unit key whose lowercase form is
  allowed is appended in that lowercase form when the listener's render is neither
  locked nor full. A tile click appends the tile's string as it is.
\<close>

theorem keydown_lowercases:
  assumes "currentWord words v = Some w"
  shows "(userInput (handleKeydown words key v s) = userInput s @ [x] \<longrightarrow>
            x = toLowerCase key \<and> toLowerCase key \<in> allowedLetters (Some w)) \<and>
         (length (toLowerCase key) = 1 \<and> toLowerCase key \<in> allowedLetters (Some w) \<and>
          \<not> isLocked v \<and> length (userInput v) < length (word w) \<longrightarrow>
            handleKeydown words key v s = s\<lparr>userInput := userInput s @ [toLowerCase key]\<rparr>) \<and>
         (\<not> isLocked s \<and> length (userInput s) < length (word w) \<longrightarrow>
            handleLetterClick w l s s = s\<lparr>userInput := userInput s @ [l]\<rparr>)"
proof (intro conjI impI)
  assume a: "userInput (handleKeydown words key v s) = userInput s @ [x]"
  have nb: "key \<noteq> ''Backspace''"
    using a assms by (auto simp add: handleKeydown_def backspace_not_snoc)
  have ne: "key \<noteq> ''Enter''"
    using a assms by (auto simp add: handleKeydown_def userInput_handleCheck)
  have nc: "key \<noteq> ''Escape''"
    using a assms by (auto simp add: handleKeydown_def clear_not_snoc)
  have ok: "length (toLowerCase key) = 1 \<and> toLowerCase key \<in> allowedLetters (Some w)"
    using a assms nb ne nc by (auto simp add: handleKeydown_def Let_def split: if_splits)
  then have "handleKeydown words key v s = handleLetterClick w (toLowerCase key) v s"
    using assms nb ne nc by (simp add: handleKeydown_def Let_def)
  with a have "userInput (handleLetterClick w (toLowerCase key) v s) = userInput s @ [x]"
    by simp
  then have "x = toLowerCase key"
    using letter_click_cases [of w "toLowerCase key" v s] by auto
  with ok show "x = toLowerCase key" "toLowerCase key \<in> allowedLetters (Some w)" by simp_all
next
  assume b: "length (toLowerCase key) = 1 \<and> toLowerCase key \<in> allowedLetters (Some w) \<and>
          \<not> isLocked v \<and> length (userInput v) < length (word w)"
  then have "length key = 1" by (simp add: length_toLowerCase)
  then have "key \<noteq> ''Backspace''" "key \<noteq> ''Enter''" "key \<noteq> ''Escape''" by auto
  then show "handleKeydown words key v s = s\<lparr>userInput := userInput s @ [toLowerCase key]\<rparr>"
    using assms b by (simp add: handleKeydown_def Let_def handleLetterClick_def)
next
  assume "\<not> isLocked s \<and> length (userInput s) < length (word w)"
  then show "handleLetterClick w l s s = s\<lparr>userInput := userInput s @ [l]\<rparr>"
    by (simp add: handleLetterClick_def)
qed

lemma lower_I: "toLowerCase ''I'' = ''i''"
  by code_simp

lemma allowed_igel: "allowedLetters (Some igel) = {''i'', ''g'', ''e'', ''l''}"
proof -
  have "map toLowerCase [''I'', ''g'', ''e'', ''l''] = [''i'', ''g'', ''e'', ''l'']"
    by code_simp
  then show ?thesis by (simp add: allowedLetters_def igel_def)
qed

theorem keydown_lowercases_witness:
  "currentWord [igel] (initial [igel]) = Some igel \<and>
   toLowerCase ''I'' = ''i'' \<and>
   handleKeydown [igel] ''I'' (initial [igel]) (initial [igel]) =
     (initial [igel])\<lparr>userInput := userInput (initial [igel]) @ [''i'']\<rparr> \<and>
   handleLetterClick igel ''I'' (initial [igel]) (initial [igel]) =
     (initial [igel])\<lparr>userInput := userInput (initial [igel]) @ [''I'']\<rparr>"
proof -
  have w: "currentWord [igel] (initial [igel]) = Some igel"
    by (simp add: currentWord_def initial_def)
  have s: "\<not> isLocked (initial [igel])" "length (userInput (initial [igel])) < length (word igel)"
    by (simp_all add: initial_def igel_def)
  from keydown_lowercases [OF w, of "''I''" "initial [igel]" "''i''" "''I''"] w s lower_I
    allowed_igel
  show ?thesis by simp
qed

section \<open>The shuffle\<close>

lemma draw_in_range:
  assumes "0 \<le> r" "r < 1"
  shows "nat \<lfloor>r * (real i + 1)\<rfloor> \<le> i"
proof -
  have "r * (real i + 1) < 1 * (real i + 1)"
    using assms(2) by (intro mult_strict_right_mono) simp_all
  then have "r * (real i + 1) < of_int (int i + 1)" by simp
  then have "\<lfloor>r * (real i + 1)\<rfloor> < int i + 1"
    by (simp only: floor_less_iff)
  then show ?thesis by simp
qed

lemma mset_shuffle_loop:
  "valid_rnd rnd \<Longrightarrow> i < length xs \<Longrightarrow> mset (shuffle_loop rnd k i xs) = mset xs"
proof (induction i arbitrary: k xs)
  case 0
  then show ?case by simp
next
  case (Suc i)
  let ?j = "nat \<lfloor>rnd k * (real (Suc i) + 1)\<rfloor>"
  have "0 \<le> rnd k" "rnd k < 1" using Suc.prems(1) by (simp_all add: valid_rnd_def)
  then have "?j \<le> Suc i" by (rule draw_in_range)
  with Suc.prems(2) have j: "?j < length xs" by simp
  have "mset (xs[Suc i := xs ! ?j, ?j := xs ! Suc i]) = mset xs"
    using j Suc.prems(2) by (rule mset_swap)
  moreover have "i < length (xs[Suc i := xs ! ?j, ?j := xs ! Suc i])"
    using Suc.prems(2) by simp
  ultimately show ?case using Suc.IH [OF Suc.prems(1)] by (simp add: Let_def)
qed

lemma mset_shuffleArray: "valid_rnd rnd \<Longrightarrow> mset (shuffleArray rnd xs) = mset xs"
proof (cases xs)
  case Nil
  then show ?thesis by (simp add: shuffleArray_def)
next
  case (Cons a list)
  assume "valid_rnd rnd"
  moreover have "length xs - 1 < length xs" using Cons by simp
  ultimately show ?thesis unfolding shuffleArray_def by (rule mset_shuffle_loop)
qed

lemma set_shuffleArray: "valid_rnd rnd \<Longrightarrow> set (shuffleArray rnd xs) = set xs"
  by (metis mset_shuffleArray set_mset_mset)

lemma st_word_effects:
  "currentWord words s = Some w \<Longrightarrow>
     st (word_effects words rnd s) =
       s\<lparr>userInput := [], isLocked := False, status := Status_idle,
         feedback := neutral_feedback, shake := False, audioAvailable := True,
         isAudioBusy := False, showNextPopup := False,
         shuffledLetters := shuffleArray rnd (letters w)\<rparr>"
  by (simp add: word_effects_def shuffle_effect_def reset_effect_def)

text \<open>
  C9 as stated fails: when every draw of \<^verbatim>\<open>Math.random()\<close> is 0.9, each swap of the
  shuffle of the four letters of "hund" has \<open>j = i\<close>, and the tiles after mounting spell
  the target word.
\<close>

theorem shuffle_identity_counterexample:
  "valid_rnd (\<lambda>_. 9 / 10) \<and>
   shuffledLetters (st (mount [hund] Missing (\<lambda>_. 9 / 10) (\<lambda>_. 9 / 10))) =
     [''h'', ''u'', ''n'', ''d''] \<and>
   concat (shuffledLetters (st (mount [hund] Missing (\<lambda>_. 9 / 10) (\<lambda>_. 9 / 10)))) = word hund"
  by (simp add: valid_rnd_def mount_def word_effects_def shuffle_effect_def reset_effect_def
      load_progress_def currentWord_def initial_def shuffleArray_def hund_def)

text \<open>
  C9 (amended). Every time the word changes, the effects set \<^verbatim>\<open>shuffledLetters\<close> to
  \<^verbatim>\<open>shuffleArray\<close> of the word's \<^verbatim>\<open>letters\<close> with fresh draws, and for every outcome of the
  draws the result is a permutation of the letters list (the same multiset). It may
  coincide with the target spelling.
\<close>

theorem tiles_are_permutation:
  "valid_rnd rnd \<Longrightarrow> currentWord words s = Some w \<Longrightarrow>
     shuffledLetters (st (word_effects words rnd s)) = shuffleArray rnd (letters w) \<and>
     mset (shuffleArray rnd (letters w)) = mset (letters w)"
  by (simp add: st_word_effects mset_shuffleArray)

theorem tiles_are_permutation_witness:
  "valid_rnd (\<lambda>_. 0) \<and> currentWord [hund] (initial [hund]) = Some hund \<and>
   shuffledLetters (st (word_effects [hund] (\<lambda>_. 0) (initial [hund]))) =
     [''u'', ''n'', ''d'', ''h''] \<and>
   mset [''u'', ''n'', ''d'', ''h''] = mset (letters hund)"
proof -
  have v: "valid_rnd (\<lambda>_. 0)" by (simp add: valid_rnd_def)
  have w: "currentWord [hund] (initial [hund]) = Some hund"
    by (simp add: currentWord_def initial_def)
  have e: "shuffleArray (\<lambda>_. 0) (letters hund) = [''u'', ''n'', ''d'', ''h'']"
    by (simp add: shuffleArray_def hund_def)
  from tiles_are_permutation [OF v w] v w show ?thesis by (simp add: e)
qed

section \<open>Loading the stored progress\<close>

lemma word_effects_keeps:
  "currentIndex (st (word_effects words rnd s)) = currentIndex s"
  "mistakes (st (word_effects words rnd s)) = mistakes s"
  "progressLoaded (st (word_effects words rnd s)) = progressLoaded s"
  by (simp_all add: word_effects_def shuffle_effect_def reset_effect_def split: option.splits)

lemma load_progress_reads:
  assumes "currentIndex s = currentIndex s'" "mistakes s = mistakes s'"
    "progressLoaded s = progressLoaded s'"
  shows "currentIndex (load_progress words stor s) = currentIndex (load_progress words stor s')"
    and "mistakes (load_progress words stor s) = mistakes (load_progress words stor s')"
    and "progressLoaded (load_progress words stor s) = progressLoaded (load_progress words stor s')"
  using assms by (simp_all add: load_progress_def split: stored.splits)

lemma mount_progress:
  "currentIndex (st (mount words stor rnd0 rnd1)) =
     currentIndex (load_progress words stor (initial words))"
  "mistakes (st (mount words stor rnd0 rnd1)) =
     mistakes (load_progress words stor (initial words))"
  "progressLoaded (st (mount words stor rnd0 rnd1)) =
     progressLoaded (load_progress words stor (initial words))"
proof -
  note k = word_effects_keeps [of words rnd0 "initial words"]
  note l = load_progress_reads [OF k, where words = words and stor = stor]
  show "currentIndex (st (mount words stor rnd0 rnd1)) =
     currentIndex (load_progress words stor (initial words))"
    using l(1) by (simp add: mount_def Let_def word_effects_keeps)
  show "mistakes (st (mount words stor rnd0 rnd1)) =
     mistakes (load_progress words stor (initial words))"
    using l(2) by (simp add: mount_def Let_def word_effects_keeps)
  show "progressLoaded (st (mount words stor rnd0 rnd1)) =
     progressLoaded (load_progress words stor (initial words))"
    using l(3) by (simp add: mount_def Let_def word_effects_keeps)
qed

lemma mount_fallback:
  assumes "stor \<in> {Unavailable, Missing, Empty_text, Unparsable, Json_null}"
  shows "currentIndex (st (mount words stor rnd0 rnd1)) = Num 0"
    and "mistakes (st (mount words stor rnd0 rnd1)) = Plain Map.empty"
    and "words \<noteq> [] \<Longrightarrow> progressLoaded (st (mount words stor rnd0 rnd1))"
  using assms by (auto simp add: mount_progress load_progress_def initial_def)

lemma mount_integer_index:
  assumes "words \<noteq> []"
  shows "currentIndex (st (mount words (Json_value (Some (Num (of_int i))) ms) rnd0 rnd1)) =
           Num (of_int (i mod int (length words)))"
proof -
  from assms have n: "0 < int (length words)" by simp
  show ?thesis
    using assms normalizeIndex_mod [OF n, of i] by (simp add: mount_progress load_progress_def)
qed


section \<open>Sessions: every configuration reached from mounting\<close>

lemma currentWord_index:
  assumes "currentIndex s' = currentIndex s"
  shows "currentWord words s' = currentWord words s"
  using assms by (simp add: currentWord_def)

lemma currentWord_integer:
  assumes "currentWord words s = Some w"
  shows "\<exists>i. currentIndex s = Num (of_int i) \<and> 0 \<le> i \<and> i < int (length words)"
proof (cases "currentIndex s")
  case (Num x)
  with assms have x: "of_int \<lfloor>x\<rfloor> = x" "0 \<le> x" "x < real (length words)"
    by (simp_all add: currentWord_def split: if_splits)
  have "0 \<le> \<lfloor>x\<rfloor>" using x(2) by simp
  moreover have "\<lfloor>x\<rfloor> < int (length words)" using x(3) by (simp add: floor_less_iff)
  ultimately show ?thesis using Num x(1) by metis
next
  case NaN
  with assms show ?thesis by (simp add: currentWord_def)
next
  case Infinity
  with assms show ?thesis by (simp add: currentWord_def)
qed

lemma currentWord_of_int:
  assumes "currentIndex s = Num (of_int i)" "0 \<le> i" "i < int (length words)"
  shows "currentWord words s = Some (words ! nat i)"
  using assms by (simp add: currentWord_def)

lemma kb_word_effects: "kb (word_effects words rnd s) = s"
  by (simp add: word_effects_def)

lemma load_progress_frame:
  "userInput (load_progress words stor s) = userInput s"
  "isLocked (load_progress words stor s) = isLocked s"
  "showNextPopup (load_progress words stor s) = showNextPopup s"
  "shuffledLetters (load_progress words stor s) = shuffledLetters s"
  by (simp_all add: load_progress_def split: stored.splits)

lemma word_effects_inv:
  assumes "valid_rnd rnd" "currentWord words s = Some w"
  shows "session_inv words (word_effects words rnd s)"
proof -
  let ?s' = "st (word_effects words rnd s)"
  have f: "currentIndex ?s' = currentIndex s" "userInput ?s' = []" "\<not> showNextPopup ?s'"
    "shuffledLetters ?s' = shuffleArray rnd (letters w)"
    by (simp_all add: st_word_effects [OF assms(2)])
  have cw: "currentWord words ?s' = Some w"
    using currentWord_index [OF f(1), of words] assms(2) by simp
  show ?thesis
    using assms(1)
    by (simp add: session_inv_def popup_locked_def cw kb_word_effects f set_shuffleArray)
qed

lemma word_effects_inv_None:
  assumes "currentWord words s = None" "userInput s = []" "popup_locked s"
  shows "session_inv words (word_effects words rnd s)"
proof -
  have eq: "st (word_effects words rnd s) = s\<lparr>shuffledLetters := []\<rparr>"
    using assms(1) by (simp add: word_effects_def shuffle_effect_def reset_effect_def)
  have cw: "currentWord words (s\<lparr>shuffledLetters := []\<rparr>) = None"
    using assms(1) by (simp add: currentWord_def)
  show ?thesis
    using assms(2,3) by (simp add: session_inv_def popup_locked_def eq cw kb_word_effects)
qed

lemma mount_inv:
  assumes "valid_rnd rnd0" "valid_rnd rnd1"
  shows "session_inv words (mount words stor rnd0 rnd1)"
proof (cases "words = []")
  case True
  then show ?thesis
    by (simp add: session_inv_def popup_locked_def mount_def word_effects_def shuffle_effect_def
        reset_effect_def load_progress_def currentWord_def initial_def Let_def)
next
  case False
  let ?s0 = "initial words"
  let ?e0 = "st (word_effects words rnd0 ?s0)"
  let ?s1 = "load_progress words stor ?e0"
  have i0: "currentIndex ?s0 = Num (of_int 0)" by (simp add: initial_def)
  have w0: "currentWord words ?s0 = Some (words ! 0)"
    using currentWord_of_int [OF i0, of words] False by simp
  have e0: "userInput ?e0 = []" "\<not> showNextPopup ?e0"
    "shuffledLetters ?e0 = shuffleArray rnd0 (letters (words ! 0))"
    by (simp_all add: st_word_effects [OF w0])
  have s1: "userInput ?s1 = []" "\<not> showNextPopup ?s1"
    "shuffledLetters ?s1 = shuffleArray rnd0 (letters (words ! 0))"
    using e0 by (simp_all add: load_progress_frame)
  show ?thesis
  proof (cases "currentIndex ?s1 = currentIndex ?s0")
    case True
    have eq: "mount words stor rnd0 rnd1 = \<lparr>st = ?s1, kb = ?s0\<rparr>"
      using True by (simp add: mount_def Let_def)
    have cw: "currentWord words ?s1 = Some (words ! 0)"
      using currentWord_index [OF True, of words] w0 by simp
    show ?thesis
      unfolding eq session_inv_def popup_locked_def using True cw s1 assms(1)
      by (simp add: set_shuffleArray)
  next
    case False
    then have eq: "mount words stor rnd0 rnd1 = word_effects words rnd1 ?s1"
      by (simp add: mount_def Let_def)
    show ?thesis
    proof (cases "currentWord words ?s1")
      case None
      then show ?thesis unfolding eq using s1(1,2)
        by (intro word_effects_inv_None) (simp_all add: popup_locked_def)
    next
      case (Some w1)
      with assms(2) show ?thesis unfolding eq by (rule word_effects_inv)
    qed
  qed
qed

lemma handler_frames:
  "currentIndex (handleLetterClick w l v s) = currentIndex s"
  "shuffledLetters (handleLetterClick w l v s) = shuffledLetters s"
  "currentIndex (handleBackspace v s) = currentIndex s"
  "shuffledLetters (handleBackspace v s) = shuffledLetters s"
  "currentIndex (handleClear v s) = currentIndex s"
  "shuffledLetters (handleClear v s) = shuffledLetters s"
  "currentIndex (handleCheck w v s) = currentIndex s"
  "shuffledLetters (handleCheck w v s) = shuffledLetters s"
  "userInput (handleCheck w v s) = userInput s"
  "currentIndex (handleAnimationEnd v s) = currentIndex s"
  "shuffledLetters (handleAnimationEnd v s) = shuffledLetters s"
  "userInput (handleAnimationEnd v s) = userInput s"
  by (simp_all add: handleLetterClick_def handleBackspace_def handleClear_def check_simps
      handleAnimationEnd_def)

lemma handler_popup:
  "popup_locked s \<Longrightarrow> popup_locked (handleLetterClick w l v s)"
  "popup_locked s \<Longrightarrow> popup_locked (handleBackspace v s)"
  "popup_locked s \<Longrightarrow> popup_locked (handleClear v s)"
  "popup_locked s \<Longrightarrow> popup_locked (handleCheck w v s)"
  "popup_locked s \<Longrightarrow> popup_locked (handleAnimationEnd v s)"
  "popup_locked s \<Longrightarrow> popup_locked (handleNext words s)"
  by (simp_all add: popup_locked_def handleLetterClick_def handleBackspace_def handleClear_def
      check_simps handleAnimationEnd_def handleNext_def)

lemma handler_input:
  "set (userInput (handleLetterClick w l v s)) \<subseteq> insert l (set (userInput s))"
  "set (userInput (handleBackspace v s)) \<subseteq> set (userInput s)"
  "set (userInput (handleClear v s)) \<subseteq> set (userInput s)"
  by (auto simp add: handleLetterClick_def handleBackspace_def handleClear_def triggerShake_def
      dest: in_set_butlastD)


lemma keydown_frames:
  "currentIndex (handleKeydown words key v s) = currentIndex s"
  "shuffledLetters (handleKeydown words key v s) = shuffledLetters s"
  by (simp_all add: handleKeydown_def handler_frames Let_def split: option.splits)

lemma keydown_popup: "popup_locked s \<Longrightarrow> popup_locked (handleKeydown words key v s)"
  by (simp add: handleKeydown_def handler_popup Let_def split: option.splits)

lemma keydown_input:
  assumes "currentWord words v = Some w"
  shows "set (userInput (handleKeydown words key v s)) \<subseteq> set (userInput s) \<union> allowedLetters (Some w)"
proof -
  consider (b) "handleKeydown words key v s = handleBackspace v s"
    | (e) "handleKeydown words key v s = handleCheck w v s"
    | (c) "handleKeydown words key v s = handleClear v s"
    | (l) "toLowerCase key \<in> allowedLetters (Some w)"
          "handleKeydown words key v s = handleLetterClick w (toLowerCase key) v s"
    | (n) "handleKeydown words key v s = s"
    using assms by (simp add: handleKeydown_def Let_def) metis
  then show ?thesis
  proof cases
    case b
    then show ?thesis using handler_input(2) [of v s] by auto
  next
    case e
    then show ?thesis by (simp add: handler_frames)
  next
    case c
    then show ?thesis using handler_input(3) [of v s] by auto
  next
    case l
    then show ?thesis using handler_input(1) [of w "toLowerCase key" v s] by auto
  next
    case n
    then show ?thesis by auto
  qed
qed

lemma keydown_input_None:
  "currentWord words v = None \<Longrightarrow> handleKeydown words key v s = s"
  by (simp add: handleKeydown_def)


lemma inv_update:
  assumes "session_inv words c"
    and "currentIndex s' = currentIndex (st c)"
    and "shuffledLetters s' = shuffledLetters (st c)"
    and "popup_locked s'"
    and "\<And>w. currentWord words (st c) = Some w \<Longrightarrow>
           set (userInput s') \<subseteq> set (letters w) \<union> allowedLetters (Some w)"
    and "currentWord words (st c) = None \<Longrightarrow> userInput s' = []"
  shows "session_inv words (c\<lparr>st := s'\<rparr>)"
proof -
  have cw: "currentWord words s' = currentWord words (st c)"
    using assms(2) by (rule currentWord_index)
  show ?thesis
    using assms unfolding session_inv_def popup_locked_def
    by (cases "currentWord words (st c)") (simp_all add: cw)
qed

lemma inv_popup: "session_inv words c \<Longrightarrow> popup_locked (st c)"
  by (simp add: session_inv_def popup_locked_def)

lemma inv_input:
  "session_inv words c \<Longrightarrow> currentWord words (st c) = Some w \<Longrightarrow>
     set (userInput (st c)) \<subseteq> set (letters w) \<union> allowedLetters (Some w)"
  by (simp add: session_inv_def)

lemma inv_tiles:
  "session_inv words c \<Longrightarrow> currentWord words (st c) = Some w \<Longrightarrow>
     set (shuffledLetters (st c)) = set (letters w)"
  by (simp add: session_inv_def)

lemma inv_input_None:
  "session_inv words c \<Longrightarrow> currentWord words (st c) = None \<Longrightarrow> userInput (st c) = []"
  by (simp add: session_inv_def)

lemma inv_kb: "session_inv words c \<Longrightarrow> currentWord words (kb c) = currentWord words (st c)"
  by (rule currentWord_index) (simp add: session_inv_def)

lemma keydown_inv:
  assumes "session_inv words c"
  shows "session_inv words (c\<lparr>st := handleKeydown words key (kb c) (st c)\<rparr>)"
proof (rule inv_update [OF assms])
  show "popup_locked (handleKeydown words key (kb c) (st c))"
    using assms by (simp add: keydown_popup inv_popup)
next
  fix w assume w: "currentWord words (st c) = Some w"
  then have "currentWord words (kb c) = Some w" using assms by (simp add: inv_kb)
  then have "set (userInput (handleKeydown words key (kb c) (st c)))
               \<subseteq> set (userInput (st c)) \<union> allowedLetters (Some w)"
    by (rule keydown_input)
  with inv_input [OF assms w]
  show "set (userInput (handleKeydown words key (kb c) (st c)))
          \<subseteq> set (letters w) \<union> allowedLetters (Some w)" by blast
next
  assume "currentWord words (st c) = None"
  then show "userInput (handleKeydown words key (kb c) (st c)) = []"
    using assms by (simp add: inv_kb keydown_input_None inv_input_None)
qed (simp_all add: keydown_frames)

lemma letter_click_inv:
  assumes "session_inv words c" "currentWord words (st c) = Some w"
    "k < length (shuffledLetters (st c))"
  shows "session_inv words
           (c\<lparr>st := handleLetterClick w (shuffledLetters (st c) ! k) (st c) (st c)\<rparr>)"
proof (rule inv_update [OF assms(1)])
  show "popup_locked (handleLetterClick w (shuffledLetters (st c) ! k) (st c) (st c))"
    using assms(1) by (simp add: handler_popup inv_popup)
next
  fix w' assume w': "currentWord words (st c) = Some w'"
  then have eq: "w' = w" using assms(2) by simp
  have "shuffledLetters (st c) ! k \<in> set (letters w)"
    using assms(3) inv_tiles [OF assms(1,2)] by (metis nth_mem)
  with handler_input(1) [of w "shuffledLetters (st c) ! k" "st c" "st c"]
    inv_input [OF assms(1,2)]
  show "set (userInput (handleLetterClick w (shuffledLetters (st c) ! k) (st c) (st c)))
          \<subseteq> set (letters w') \<union> allowedLetters (Some w')"
    unfolding eq by blast
next
  assume "currentWord words (st c) = None"
  then show "userInput (handleLetterClick w (shuffledLetters (st c) ! k) (st c) (st c)) = []"
    using assms(2) by simp
qed (simp_all add: handler_frames)

lemma shrinking_inv:
  assumes "session_inv words c"
    and "currentIndex s' = currentIndex (st c)"
    and "shuffledLetters s' = shuffledLetters (st c)"
    and "popup_locked s'"
    and "set (userInput s') \<subseteq> set (userInput (st c))"
  shows "session_inv words (c\<lparr>st := s'\<rparr>)"
proof (rule inv_update [OF assms(1-4)])
  fix w assume "currentWord words (st c) = Some w"
  from inv_input [OF assms(1) this] assms(5)
  show "set (userInput s') \<subseteq> set (letters w) \<union> allowedLetters (Some w)" by blast
next
  assume "currentWord words (st c) = None"
  from inv_input_None [OF assms(1) this] assms(5)
  show "userInput s' = []" by simp
qed

lemma next_inv:
  assumes "session_inv words c" "currentWord words (st c) = Some w" "valid_rnd rnd"
  shows "session_inv words
           (let s' = handleNext words (st c) in
            if currentIndex s' \<noteq> currentIndex (st c) then word_effects words rnd s'
            else c\<lparr>st := s'\<rparr>)"
proof -
  let ?s' = "handleNext words (st c)"
  from currentWord_integer [OF assms(2)] obtain i
    where i: "currentIndex (st c) = Num (of_int i)" "0 \<le> i" "i < int (length words)"
    by blast
  have n: "0 < int (length words)" using i(2,3) by linarith
  have ne: "words \<noteq> []" using n by auto
  let ?i' = "(i + 1) mod int (length words)"
  have "js_add (currentIndex (st c)) 1 = Num (of_int (i + 1))" using i(1) by simp
  then have i': "currentIndex ?s' = Num (of_int ?i')"
    using ne normalizeIndex_mod [OF n, of "i + 1"] by (simp add: handleNext_def)
  have "0 \<le> ?i'" "?i' < int (length words)" using n by simp_all
  with i' have w': "currentWord words ?s' = Some (words ! nat ?i')"
    by (rule currentWord_of_int)
  show ?thesis
  proof (cases "currentIndex ?s' = currentIndex (st c)")
    case True
    have "session_inv words (c\<lparr>st := ?s'\<rparr>)"
    proof (rule shrinking_inv [OF assms(1) True])
      show "popup_locked ?s'" using assms(1) by (simp add: handler_popup inv_popup)
    qed (simp_all add: handleNext_def)
    with True show ?thesis by (simp add: Let_def)
  next
    case False
    have "session_inv words (word_effects words rnd ?s')"
      using assms(3) w' by (rule word_effects_inv)
    with False show ?thesis by (simp add: Let_def)
  qed
qed

lemma click_inv:
  assumes "session_inv words c" "currentWord words (st c) = Some w" "valid_event e"
  shows "session_inv words (click words w c e)"
proof (cases e)
  case (ClickLetter k)
  then show ?thesis
    using assms(1) letter_click_inv [OF assms(1,2), of k] by (simp add: click_def Let_def)
next
  case ClickBackspace
  have "session_inv words (c\<lparr>st := handleBackspace (st c) (st c)\<rparr>)"
    using assms(1) handler_input(2) [of "st c" "st c"]
    by (intro shrinking_inv) (simp_all add: handler_frames handler_popup inv_popup)
  with ClickBackspace assms(1) show ?thesis by (simp add: click_def Let_def)
next
  case ClickCheck
  have "session_inv words (c\<lparr>st := handleCheck w (st c) (st c)\<rparr>)"
    using assms(1)
    by (intro shrinking_inv) (simp_all add: handler_frames handler_popup inv_popup)
  with ClickCheck assms(1) show ?thesis by (simp add: click_def Let_def)
next
  case ClickClear
  have "session_inv words (c\<lparr>st := handleClear (st c) (st c)\<rparr>)"
    using assms(1) handler_input(3) [of "st c" "st c"]
    by (intro shrinking_inv) (simp_all add: handler_frames handler_popup inv_popup)
  with ClickClear assms(1) show ?thesis by (simp add: click_def Let_def)
next
  case (ClickNext rnd)
  then have "valid_rnd rnd" using assms(3) by (simp add: valid_event_def)
  from next_inv [OF assms(1,2) this] ClickNext assms(1)
  show ?thesis by (simp add: click_def Let_def)
next
  case (Keydown key)
  then show ?thesis using assms(1) by (simp add: click_def)
next
  case AnimationEnd
  have "session_inv words (c\<lparr>st := handleAnimationEnd (st c) (st c)\<rparr>)"
    using assms(1)
    by (intro shrinking_inv) (simp_all add: handler_frames handler_popup inv_popup)
  with AnimationEnd show ?thesis by (simp add: click_def Let_def)
qed

lemma step_inv:
  assumes "session_inv words c" "valid_event e"
  shows "session_inv words (step words c e)"
proof (cases "\<exists>key. e = Keydown key")
  case True
  then show ?thesis using keydown_inv [OF assms(1)] by (auto simp add: step_def)
next
  case False
  then have eq: "step words c e =
      (case currentWord words (st c) of None \<Rightarrow> c | Some w \<Rightarrow> click words w c e)"
    by (cases e) (simp_all add: step_def split: option.splits)
  show ?thesis unfolding eq using assms click_inv
    by (cases "currentWord words (st c)") simp_all
qed

lemma run_inv:
  "session_inv words c \<Longrightarrow> list_all valid_event evs \<Longrightarrow> session_inv words (run words c evs)"
  unfolding run_def
  by (induction evs arbitrary: c) (simp_all add: step_inv)

lemmas session_defs = run_def step_def click_def mount_def word_effects_def shuffle_effect_def
  reset_effect_def load_progress_def currentWord_def initial_def shuffleArray_def
  handleLetterClick_def handleBackspace_def handleClear_def handleNext_def handleKeydown_def
  handleAnimationEnd_def check_simps Let_def

lemma lower_H: "toLowerCase ''H'' = ''h''"
  by code_simp

lemma allowed_hund: "allowedLetters (Some hund) = {''h'', ''u'', ''n'', ''d''}"
proof -
  have "map toLowerCase [''h'', ''u'', ''n'', ''d''] = [''h'', ''u'', ''n'', ''d'']"
    by code_simp
  then show ?thesis by (simp add: allowedLetters_def hund_def)
qed

text \<open>
  C5 as stated fails: a tile stays clickable after it was clicked. With the one word
  "hund" and the tiles shuffled to u, n, d, h, two clicks on the first tile give the
  attempt u, u, while the word's letters hold one u.
\<close>

theorem attempt_multiset_counterexample:
  "valid_rnd (\<lambda>_. 0) \<and> list_all valid_event [ClickLetter 0, ClickLetter 0] \<and>
   userInput (st (run [hund] (mount [hund] Missing (\<lambda>_. 0) (\<lambda>_. 0))
      [ClickLetter 0, ClickLetter 0])) = [''u'', ''u''] \<and>
   count_list [''u'', ''u''] ''u'' = 2 \<and>
   count_list (letters hund) ''u'' = 1"
  by (simp add: valid_rnd_def valid_event_def session_defs hund_def)

text \<open>
  C5 (amended). After mounting and any sequence of events (tile clicks, the three control
  buttons, "Weiter", key presses, the end of the shake animation), every letter of the
  attempt is one of the current word's letters or the lowercase form of one; how often
  a letter occurs is not bounded by the letters list.
\<close>

theorem attempt_letters_from_word:
  assumes "valid_rnd rnd0" and "valid_rnd rnd1" and "list_all valid_event evs"
    and "currentWord words (st (run words (mount words stor rnd0 rnd1) evs)) = Some w"
  shows "set (userInput (st (run words (mount words stor rnd0 rnd1) evs)))
           \<subseteq> set (letters w) \<union> allowedLetters (Some w)"
proof -
  have "session_inv words (mount words stor rnd0 rnd1)"
    using assms(1,2) by (rule mount_inv)
  then have "session_inv words (run words (mount words stor rnd0 rnd1) evs)"
    using assms(3) by (rule run_inv)
  then show ?thesis using assms(4) by (rule inv_input)
qed

theorem attempt_letters_from_word_witness:
  "valid_rnd (\<lambda>_. 0) \<and>
   list_all valid_event [ClickLetter 0, ClickLetter 0, Keydown ''H''] \<and>
   currentWord [hund] (st (run [hund] (mount [hund] Missing (\<lambda>_. 0) (\<lambda>_. 0))
        [ClickLetter 0, ClickLetter 0, Keydown ''H''])) = Some hund \<and>
   userInput (st (run [hund] (mount [hund] Missing (\<lambda>_. 0) (\<lambda>_. 0))
        [ClickLetter 0, ClickLetter 0, Keydown ''H''])) = [''u'', ''u'', ''h''] \<and>
   set [''u'', ''u'', ''h''] \<subseteq> set (letters hund) \<union> allowedLetters (Some hund)"
proof -
  have v: "valid_rnd (\<lambda>_. 0)" by (simp add: valid_rnd_def)
  have e: "list_all valid_event [ClickLetter 0, ClickLetter 0, Keydown ''H'']"
    by (simp add: valid_event_def)
  have w: "currentWord [hund] (st (run [hund] (mount [hund] Missing (\<lambda>_. 0) (\<lambda>_. 0))
        [ClickLetter 0, ClickLetter 0, Keydown ''H''])) = Some hund"
    using allowed_hund by (simp add: session_defs lower_H hund_def)
  have u: "userInput (st (run [hund] (mount [hund] Missing (\<lambda>_. 0) (\<lambda>_. 0))
        [ClickLetter 0, ClickLetter 0, Keydown ''H''])) = [''u'', ''u'', ''h'']"
    using allowed_hund by (simp add: session_defs lower_H hund_def)
  from attempt_letters_from_word [OF v v e w] v e w u
  show ?thesis by simp
qed

text \<open>
  C8. The advance operation of the page is the click on the "Weiter" button, which is
  rendered only while \<^verbatim>\<open>showNextPopup\<close> is set (\<^verbatim>\<open>handleNext\<close> has no other caller and no
  test of its own). In every configuration reached from mounting \<^verbatim>\<open>showNextPopup\<close>
  implies \<^verbatim>\<open>isLocked\<close>; so in every such configuration that is not locked the advance
  click leaves \<^verbatim>\<open>currentIndex\<close> and all the rest of the configuration unchanged.
\<close>

theorem advance_needs_popup:
  assumes "valid_rnd rnd0" and "valid_rnd rnd1" and "list_all valid_event evs"
  shows "(showNextPopup (st (run words (mount words stor rnd0 rnd1) evs)) \<longrightarrow>
            isLocked (st (run words (mount words stor rnd0 rnd1) evs))) \<and>
         (\<not> isLocked (st (run words (mount words stor rnd0 rnd1) evs)) \<longrightarrow>
            step words (run words (mount words stor rnd0 rnd1) evs) (ClickNext rnd) =
              run words (mount words stor rnd0 rnd1) evs)"
proof -
  let ?c = "run words (mount words stor rnd0 rnd1) evs"
  have "session_inv words (mount words stor rnd0 rnd1)"
    using assms(1,2) by (rule mount_inv)
  then have "session_inv words ?c" using assms(3) by (rule run_inv)
  then have p: "showNextPopup (st ?c) \<longrightarrow> isLocked (st ?c)"
    by (simp add: session_inv_def popup_locked_def)
  have "\<not> showNextPopup (st ?c) \<Longrightarrow> step words ?c (ClickNext rnd) = ?c"
    by (simp add: step_def click_def split: option.splits)
  with p show ?thesis by blast
qed

theorem advance_needs_popup_witness:
  "valid_rnd (\<lambda>_. 0) \<and> list_all valid_event [ClickLetter 0, ClickCheck] \<and>
   \<not> isLocked (st (run [hund, katze] (mount [hund, katze] Missing (\<lambda>_. 0) (\<lambda>_. 0))
        [ClickLetter 0, ClickCheck])) \<and>
   step [hund, katze]
     (run [hund, katze] (mount [hund, katze] Missing (\<lambda>_. 0) (\<lambda>_. 0)) [ClickLetter 0, ClickCheck])
     (ClickNext (\<lambda>_. 0)) =
   run [hund, katze] (mount [hund, katze] Missing (\<lambda>_. 0) (\<lambda>_. 0)) [ClickLetter 0, ClickCheck]"
proof -
  have v: "valid_rnd (\<lambda>_. 0)" by (simp add: valid_rnd_def)
  have e: "list_all valid_event [ClickLetter 0, ClickCheck]"
    by (simp add: valid_event_def)
  have u: "\<not> isLocked (st (run [hund, katze] (mount [hund, katze] Missing (\<lambda>_. 0) (\<lambda>_. 0))
        [ClickLetter 0, ClickCheck]))"
    by (simp add: session_defs hund_def katze_def)
  from advance_needs_popup [OF v v e, of "[hund, katze]" Missing "\<lambda>_. 0"] v e u
  show ?thesis by blast
qed

section \<open>The render the key listener reads\<close>

text \<open>
  The key listener keeps the handlers of the render in which it was registered, and
  their tests of \<^verbatim>\<open>isLocked\<close> and \<^verbatim>\<open>userInput\<close> read that render. On a fresh session
  with the one word "hund" it is the first render, with an empty attempt. The tiles are
  u, n, d, h.
\<close>

text \<open>
  C6. A fifth letter key is appended to the full attempt h, u, n, d and \<^verbatim>\<open>shake\<close> is not
  set: the attempt grows beyond the four letters of the word. A click on a tile in the
  same configuration appends nothing and sets \<^verbatim>\<open>shake\<close>.
\<close>

theorem key_listener_grows_attempt:
  "userInput (st (run [hund] (mount [hund] Missing (\<lambda>_. 0) (\<lambda>_. 0))
      [Keydown ''h'', Keydown ''u'', Keydown ''n'', Keydown ''d'', Keydown ''d''])) =
     [''h'', ''u'', ''n'', ''d'', ''d''] \<and>
   length (word hund) = 4 \<and>
   \<not> shake (st (run [hund] (mount [hund] Missing (\<lambda>_. 0) (\<lambda>_. 0))
      [Keydown ''h'', Keydown ''u'', Keydown ''n'', Keydown ''d'', Keydown ''d''])) \<and>
   userInput (st (run [hund] (mount [hund] Missing (\<lambda>_. 0) (\<lambda>_. 0))
      [Keydown ''h'', Keydown ''u'', Keydown ''n'', Keydown ''d'', ClickLetter 0])) =
     [''h'', ''u'', ''n'', ''d''] \<and>
   shake (st (run [hund] (mount [hund] Missing (\<lambda>_. 0) (\<lambda>_. 0))
      [Keydown ''h'', Keydown ''u'', Keydown ''n'', Keydown ''d'', ClickLetter 0]))"
proof -
  have "map toLowerCase [''h'', ''u'', ''n'', ''d''] = [''h'', ''u'', ''n'', ''d'']"
    by code_simp
  then show ?thesis using allowed_hund by (simp add: session_defs hund_def)
qed

text \<open>
  C7. With the attempt h, u on screen, Enter judges the empty attempt of the listener's
  render and reports "Fang mit einem Buchstaben an!"; the Check button reports the two
  missing letters.
\<close>

theorem enter_reports_no_count:
  "userInput (st (run [hund] (mount [hund] Missing (\<lambda>_. 0) (\<lambda>_. 0))
      [ClickLetter 3, ClickLetter 0])) = [''h'', ''u''] \<and>
   \<not> isLocked (st (run [hund] (mount [hund] Missing (\<lambda>_. 0) (\<lambda>_. 0))
      [ClickLetter 3, ClickLetter 0])) \<and>
   message (feedback (st (run [hund] (mount [hund] Missing (\<lambda>_. 0) (\<lambda>_. 0))
      [ClickLetter 3, ClickLetter 0, Keydown ''Enter'']))) = ''Fang mit einem Buchstaben an!'' \<and>
   message (feedback (st (run [hund] (mount [hund] Missing (\<lambda>_. 0) (\<lambda>_. 0))
      [ClickLetter 3, ClickLetter 0, ClickCheck]))) = ''Dir fehlen noch 2 Buchstaben.''"
  by (simp add: session_defs hund_def missing_message_def)

text \<open>
  C2. With the wrong attempt u, n, d, h on screen, Enter reports "Fang mit einem
  Buchstaben an!" and counts no mistake; the Check button stores 1 under the word's id.
  And for a word whose id is "constructor" the Check button reads the inherited property
  of the empty mistakes object as the old count: the entry becomes a string, not 1.
\<close>

theorem enter_counts_no_mistake:
  "userInput (st (run [hund] (mount [hund] Missing (\<lambda>_. 0) (\<lambda>_. 0))
        [ClickLetter 0, ClickLetter 1, ClickLetter 2, ClickLetter 3])) = [''u'', ''n'', ''d'', ''h''] \<and>
   \<not> isLocked (st (run [hund] (mount [hund] Missing (\<lambda>_. 0) (\<lambda>_. 0))
        [ClickLetter 0, ClickLetter 1, ClickLetter 2, ClickLetter 3])) \<and>
   mistakes (st (run [hund] (mount [hund] Missing (\<lambda>_. 0) (\<lambda>_. 0))
        [ClickLetter 0, ClickLetter 1, ClickLetter 2, ClickLetter 3, Keydown ''Enter''])) =
     Plain Map.empty \<and>
   message (feedback (st (run [hund] (mount [hund] Missing (\<lambda>_. 0) (\<lambda>_. 0))
        [ClickLetter 0, ClickLetter 1, ClickLetter 2, ClickLetter 3, Keydown ''Enter'']))) =
     ''Fang mit einem Buchstaben an!'' \<and>
   mistakes (st (run [hund] (mount [hund] Missing (\<lambda>_. 0) (\<lambda>_. 0))
        [ClickLetter 0, ClickLetter 1, ClickLetter 2, ClickLetter 3, ClickCheck])) =
     Plain [''w1'' \<mapsto> Js_number (Num 1)] \<and>
   get_property
     (mistakes (handleCheck konstruktor ((initial [konstruktor])\<lparr>userInput := [''b'', ''a'']\<rparr>)
        ((initial [konstruktor])\<lparr>userInput := [''b'', ''a'']\<rparr>))) ''constructor'' = Some Js_string"
  by (simp add: session_defs hund_def konstruktor_def bump_def object_prototype_names_def)

end
